theory Spec2Isabelle
  imports Complex_Main
begin

section \<open>The additive-noise stochastic Runge-Kutta step of torchsde\<close>

text \<open>
  A shallow embedding of \<^verbatim>\<open>torchsde/core/methods/additive/srk.py\<close>: the class
  \<^verbatim>\<open>SRKAdditive\<close> with its constructor, its method \<^verbatim>\<open>step\<close> and its property
  \<^verbatim>\<open>strong_order\<close>.

  Python floats are modelled as \<open>real\<close> (exact arithmetic, no rounding). The step size
  \<^verbatim>\<open>dt\<close> is the float case of the source (\<^verbatim>\<open>math.sqrt(dt)\<close>). A state is a tuple of
  tensors, one per block, modelled as a list.
\<close>

subsection \<open>Errors\<close>

text \<open>
  The two exceptions the method itself can raise: the \<^verbatim>\<open>assert dt > 0\<close> at its head
  (the failure the specification calls InvalidStepSize), and an index out of range in a
  tuple lookup (\<^verbatim>\<open>y0[0]\<close>, \<^verbatim>\<open>C0[j]\<close>, \<^verbatim>\<open>A0[i][j]\<close>, ...).
\<close>

datatype error = AssertionError | IndexError

definition idx :: "'a list \<Rightarrow> nat \<Rightarrow> error + 'a" where
  "idx xs i = (if i < length xs then Inr (xs ! i) else Inl IndexError)"

definition bindE :: "error + 'a \<Rightarrow> ('a \<Rightarrow> error + 'b) \<Rightarrow> error + 'b" where
  "bindE m k = (case m of Inl e \<Rightarrow> Inl e | Inr x \<Rightarrow> k x)"

text \<open>
  \<^verbatim>\<open>tuple(expr for x in xs)\<close>: the elements are computed from left to right and the
  first exception ends the construction; an empty \<open>xs\<close> evaluates \<open>expr\<close> not at all.
\<close>

fun mapE :: "('a \<Rightarrow> error + 'b) \<Rightarrow> 'a list \<Rightarrow> error + 'b list" where
  "mapE k [] = Inr []"
| "mapE k (x # xs) = bindE (k x) (\<lambda>y. bindE (mapE k xs) (\<lambda>ys. Inr (y # ys)))"

subsection \<open>The libraries the method calls\<close>

text \<open>
  Modelled from the spec: \<^verbatim>\<open>utils.compute_trapezoidal_approx(bm, t0, y0, dt, sqrt_dt)\<close>
  is not among the source files. The specification says of the trapezoidal mode that it
  is "fully determined by the Brownian path realization -- no extra randomness
  introduced"; so the helper is a function of the Brownian source and of its other
  arguments, and it neither reads nor advances the generator of random numbers.
\<close>

type_synonym 't trapezoidal =
  "(real \<Rightarrow> 't list) \<Rightarrow> real \<Rightarrow> 't list \<Rightarrow> real \<Rightarrow> real \<Rightarrow> 't list"

text \<open>
  The tensor type \<open>'t\<close> and the operations of the numeric library are parameters of the
  model, as are the two helpers of this repository that are not among the source files.
  The generator of random numbers has a state of type \<open>'r\<close>.

  \<^item> \<open>tadd x y\<close> is \<^verbatim>\<open>x + y\<close>, \<open>tsub x y\<close> is \<^verbatim>\<open>x - y\<close> on tensors;
  \<^item> \<open>smul c x\<close> is \<^verbatim>\<open>c * x\<close>, \<open>tmuls x c\<close> is \<^verbatim>\<open>x * c\<close> and \<open>tdivs x c\<close> is
    \<^verbatim>\<open>x / c\<close> for a float \<open>c\<close>;
  \<^item> \<open>to x y\<close> is \<^verbatim>\<open>x.to(y)\<close>: \<open>x\<close> with the dtype and device of \<open>y\<close>;
  \<^item> \<open>randn_like x r\<close> is \<^verbatim>\<open>torch.randn_like(x)\<close> drawn with the generator in
    state \<open>r\<close>, together with the generator's next state;
  \<^item> \<open>batch_mvp\<close> is \<^verbatim>\<open>misc.batch_mvp\<close>, the batched matrix-vector product;
  \<^item> \<open>compute_trapezoidal_approx\<close> is the helper described above.

  The operations are total: an exception raised inside the numeric library (tensors
  of incompatible shapes within a block) is outside the model, as is one raised
  inside the drift, the diffusion or the Brownian source.
\<close>

record ('t, 'r) libs =
  tadd :: "'t \<Rightarrow> 't \<Rightarrow> 't"
  tsub :: "'t \<Rightarrow> 't \<Rightarrow> 't"
  smul :: "real \<Rightarrow> 't \<Rightarrow> 't"
  tmuls :: "'t \<Rightarrow> real \<Rightarrow> 't"
  tdivs :: "'t \<Rightarrow> real \<Rightarrow> 't"
  to :: "'t \<Rightarrow> 't \<Rightarrow> 't"
  randn_like :: "'t \<Rightarrow> 'r \<Rightarrow> 't \<times> 'r"
  batch_mvp :: "'t \<Rightarrow> 't \<Rightarrow> 't"
  compute_trapezoidal_approx :: "'t trapezoidal"

text \<open>
  The tableau module \<^verbatim>\<open>tableaus.sra1\<close> is not among the source files either; the
  method reads its eight constants, which are parameters here.
\<close>

record tableau =
  STAGES :: nat
  C0 :: "real list"
  C1 :: "real list"
  A0 :: "real list list"
  B0 :: "real list list"
  alpha :: "real list"
  beta1 :: "real list"
  beta2 :: "real list"

text \<open>
  Modelled from the spec: the shape of the tableau (section 4.1): node-time and weight
  arrays of length S, coupling matrices with \<open>A0[i][j]\<close> and \<open>B0[i][j]\<close> defined for
  \<open>j < i\<close>.
\<close>

definition wf_tableau :: "tableau \<Rightarrow> bool" where
  "wf_tableau tb \<longleftrightarrow>
     STAGES tb \<le> length (C0 tb) \<and> STAGES tb \<le> length (C1 tb) \<and>
     STAGES tb \<le> length (alpha tb) \<and> STAGES tb \<le> length (beta1 tb) \<and>
     STAGES tb \<le> length (beta2 tb) \<and>
     STAGES tb \<le> length (A0 tb) \<and> STAGES tb \<le> length (B0 tb) \<and>
     list_all (\<lambda>i. i \<le> length (A0 tb ! i) \<and> i \<le> length (B0 tb ! i)) [0..<STAGES tb]"

subsection \<open>The solver object\<close>

text \<open>
  The fields of the object that \<^verbatim>\<open>step\<close> reads: the SDE with its drift \<^verbatim>\<open>sde.f\<close> and
  its diffusion \<^verbatim>\<open>sde.g\<close>, the Brownian source \<^verbatim>\<open>bm\<close>, the options and the flag the
  constructor derives from them. Drift, diffusion and Brownian source are functions of
  their arguments: the same query gets the same response.
\<close>

record 't SRKAdditive =
  sde_f :: "real \<Rightarrow> 't list \<Rightarrow> 't list"
  sde_g :: "real \<Rightarrow> 't list \<Rightarrow> 't list"
  bm :: "real \<Rightarrow> 't list"
  options :: "string \<rightharpoonup> bool"
  trapezoidal_approx :: bool

text \<open>
  The constructor. An option's value is modelled by its truth value; the other
  arguments (\<^verbatim>\<open>y0, dt, adaptive, rtol, atol, dt_min\<close>) go to the base class and are not
  read by this class.
\<close>

definition SRKAdditive_init ::
  "(real \<Rightarrow> 't list \<Rightarrow> 't list) \<Rightarrow> (real \<Rightarrow> 't list \<Rightarrow> 't list) \<Rightarrow> (real \<Rightarrow> 't list) \<Rightarrow>
   (string \<rightharpoonup> bool) \<Rightarrow> 't SRKAdditive" where
  "SRKAdditive_init fd gd b opts =
     \<lparr> sde_f = fd, sde_g = gd, bm = b, options = opts,
       trapezoidal_approx =
         (if opts ''trapezoidal_approx'' \<noteq> None \<and> \<not> the (opts ''trapezoidal_approx'')
          then False else True) \<rparr>"

definition strong_order :: "'t SRKAdditive \<Rightarrow> real" where
  "strong_order self = 1.5"

subsection \<open>Effects: the calls made and the generator\<close>

text \<open>
  A run threads a world: the list of the calls made so far to the collaborators, in
  order, each with its arguments, and the state of the generator.
\<close>

datatype 't call =
    BmCall real
  | RandnCall 't
  | DriftCall real "'t list"
  | DiffusionCall real "'t list"

type_synonym ('t, 'r) world = "'t call list \<times> 'r"

type_synonym ('a, 't, 'r) run = "('t, 'r) world \<Rightarrow> (error + 'a) \<times> ('t, 'r) world"

definition ret :: "'a \<Rightarrow> ('a, 't, 'r) run" where
  "ret x = (\<lambda>w. (Inr x, w))"

definition raise :: "error \<Rightarrow> ('a, 't, 'r) run" where
  "raise e = (\<lambda>w. (Inl e, w))"

definition lift :: "error + 'a \<Rightarrow> ('a, 't, 'r) run" where
  "lift v = (\<lambda>w. (v, w))"

definition bind :: "('a, 't, 'r) run \<Rightarrow> ('a \<Rightarrow> ('b, 't, 'r) run) \<Rightarrow> ('b, 't, 'r) run" where
  "bind m k = (\<lambda>w. case m w of (Inl e, w') \<Rightarrow> (Inl e, w') | (Inr x, w') \<Rightarrow> k x w')"

definition emit :: "'t call \<Rightarrow> (unit, 't, 'r) run" where
  "emit c = (\<lambda>(l, r). (Inr (), (l @ [c], r)))"

fun mapM :: "('a \<Rightarrow> ('b, 't, 'r) run) \<Rightarrow> 'a list \<Rightarrow> ('b list, 't, 'r) run" where
  "mapM k [] = ret []"
| "mapM k (x # xs) = bind (k x) (\<lambda>y. bind (mapM k xs) (\<lambda>ys. ret (y # ys)))"

text \<open>\<^verbatim>\<open>for x in xs: acc = body(acc, x)\<close>\<close>

fun foldM :: "('b \<Rightarrow> 'a \<Rightarrow> ('b, 't, 'r) run) \<Rightarrow> 'a list \<Rightarrow> 'b \<Rightarrow> ('b, 't, 'r) run" where
  "foldM k [] acc = ret acc"
| "foldM k (x # xs) acc = bind (k acc x) (foldM k xs)"

definition call_bm :: "'t SRKAdditive \<Rightarrow> real \<Rightarrow> ('t list, 't, 'r) run" where
  "call_bm self t = bind (emit (BmCall t)) (\<lambda>_. ret (bm self t))"

definition call_f :: "'t SRKAdditive \<Rightarrow> real \<Rightarrow> 't list \<Rightarrow> ('t list, 't, 'r) run" where
  "call_f self t y = bind (emit (DriftCall t y)) (\<lambda>_. ret (sde_f self t y))"

definition call_g :: "'t SRKAdditive \<Rightarrow> real \<Rightarrow> 't list \<Rightarrow> ('t list, 't, 'r) run" where
  "call_g self t y = bind (emit (DiffusionCall t y)) (\<lambda>_. ret (sde_g self t y))"

definition call_randn :: "('t, 'r) libs \<Rightarrow> 't \<Rightarrow> ('t, 't, 'r) run" where
  "call_randn L x = (\<lambda>(l, r). case randn_like L x r of (z, r') \<Rightarrow> (Inr z, (l @ [RandnCall x], r')))"

subsection \<open>The stochastic integrals (lines 52 to 58)\<close>

text \<open>
  \<^verbatim>\<open>I_k = tuple((bm_next - bm_cur).to(y0[0])
               for bm_next, bm_cur in zip(self.bm(t0 + dt), self.bm(t0)))\<close>
\<close>

definition brownian_increment ::
  "('t, 'r) libs \<Rightarrow> 't SRKAdditive \<Rightarrow> real \<Rightarrow> 't list \<Rightarrow> real \<Rightarrow> ('t list, 't, 'r) run" where
  "brownian_increment L self t0 y0 dt =
     bind (call_bm self (t0 + dt)) (\<lambda>nxt.
     bind (call_bm self t0) (\<lambda>cur.
     lift (mapE (\<lambda>(bm_next, bm_cur).
                   bindE (idx y0 0) (\<lambda>y00. Inr (to L (tsub L bm_next bm_cur) y00)))
                (zip nxt cur))))"

text \<open>
  \<^verbatim>\<open>I_k0 = (utils.compute_trapezoidal_approx(self.bm, t0, y0, dt, sqrt_dt)
            if self.trapezoidal_approx else
          tuple(dt / 2. * (delta_bm_ + torch.randn_like(delta_bm_) * sqrt_dt / math.sqrt(3))
                for delta_bm_ in I_k))\<close>
\<close>

definition gaussian_surrogate ::
  "('t, 'r) libs \<Rightarrow> real \<Rightarrow> real \<Rightarrow> 't list \<Rightarrow> ('t list, 't, 'r) run" where
  "gaussian_surrogate L dt sqrt_dt I_k =
     mapM (\<lambda>delta_bm. bind (call_randn L delta_bm) (\<lambda>z.
             ret (smul L (dt / 2) (tadd L delta_bm (tdivs L (tmuls L z sqrt_dt) (sqrt 3))))))
          I_k"

definition second_integral ::
  "('t, 'r) libs \<Rightarrow> 't SRKAdditive \<Rightarrow> real \<Rightarrow> 't list \<Rightarrow> real \<Rightarrow> 't list \<Rightarrow>
   ('t list, 't, 'r) run" where
  "second_integral L self t0 y0 dt I_k =
     (let sqrt_dt = sqrt dt in
      if trapezoidal_approx self
      then ret (compute_trapezoidal_approx L (bm self) t0 y0 dt sqrt_dt)
      else gaussian_surrogate L dt sqrt_dt I_k)"

definition stochastic_integrals ::
  "('t, 'r) libs \<Rightarrow> 't SRKAdditive \<Rightarrow> real \<Rightarrow> 't list \<Rightarrow> real \<Rightarrow>
   ('t list \<times> 't list, 't, 'r) run" where
  "stochastic_integrals L self t0 y0 dt =
     bind (brownian_increment L self t0 y0 dt) (\<lambda>I_k.
     bind (second_integral L self t0 y0 dt I_k) (\<lambda>I_k0.
     ret (I_k, I_k0)))"

subsection \<open>The stage loop (lines 60 to 87)\<close>

text \<open>
  The body of \<^verbatim>\<open>for j in range(i)\<close>: one drift evaluation at the stored stage
  \<open>H0[j]\<close>, one diffusion evaluation at \<open>y0\<close>, and the update of \<open>H0i\<close> over the
  zipped blocks.
\<close>

definition inner_body ::
  "('t, 'r) libs \<Rightarrow> tableau \<Rightarrow> 't SRKAdditive \<Rightarrow> real \<Rightarrow> 't list \<Rightarrow> real \<Rightarrow> 't list \<Rightarrow>
   nat \<Rightarrow> 't list list \<Rightarrow> 't list \<Rightarrow> nat \<Rightarrow> ('t list, 't, 'r) run" where
  "inner_body L tb self t0 y0 dt I_k0 i H0 H0i j =
     bind (lift (idx (C0 tb) j)) (\<lambda>c0.
     bind (lift (idx H0 j)) (\<lambda>H0j.
     bind (call_f self (t0 + c0 * dt) H0j) (\<lambda>f_eval.
     bind (lift (idx (C1 tb) j)) (\<lambda>c1.
     bind (call_g self (t0 + c1 * dt) y0) (\<lambda>g_eval.
     lift (mapE (\<lambda>(h, fe, ge, w).
                   bindE (idx (A0 tb) i) (\<lambda>A0i. bindE (idx A0i j) (\<lambda>a.
                   bindE (idx (B0 tb) i) (\<lambda>B0i. bindE (idx B0i j) (\<lambda>b.
                   Inr (tadd L (tadd L h (tmuls L (smul L a fe) dt))
                               (tdivs L (smul L b (batch_mvp L ge w)) dt)))))))
                (zip H0i (zip f_eval (zip g_eval I_k0)))))))))"

text \<open>The body of \<^verbatim>\<open>for i in range(STAGES)\<close>, on the pair of \<open>H0\<close> and \<open>y1\<close>.\<close>

definition stage_body ::
  "('t, 'r) libs \<Rightarrow> tableau \<Rightarrow> 't SRKAdditive \<Rightarrow> real \<Rightarrow> 't list \<Rightarrow> real \<Rightarrow> 't list \<Rightarrow>
   't list \<Rightarrow> 't list list \<times> 't list \<Rightarrow> nat \<Rightarrow> ('t list list \<times> 't list, 't, 'r) run" where
  "stage_body L tb self t0 y0 dt I_k I_k0 acc i =
     (case acc of (H0, y1) \<Rightarrow>
     bind (foldM (inner_body L tb self t0 y0 dt I_k0 i H0) [0..<i] y0) (\<lambda>H0i.
     bind (lift (idx (C0 tb) i)) (\<lambda>c0.
     bind (call_f self (t0 + c0 * dt) H0i) (\<lambda>f_eval.
     bind (lift (idx (C1 tb) i)) (\<lambda>c1.
     bind (call_g self (t0 + c1 * dt) y0) (\<lambda>g_eval.
     bind (lift (mapE (\<lambda>(ik, ik0).
                   bindE (idx (beta1 tb) i) (\<lambda>b1. bindE (idx (beta2 tb) i) (\<lambda>b2.
                   Inr (tadd L (smul L b1 ik) (tdivs L (smul L b2 ik0) dt)))))
                (zip I_k I_k0))) (\<lambda>g_weight.
     bind (lift (mapE (\<lambda>(y, fe, ge, gw).
                   bindE (idx (alpha tb) i) (\<lambda>al.
                   Inr (tadd L (tadd L y (tmuls L (smul L al fe) dt)) (batch_mvp L ge gw))))
                (zip y1 (zip f_eval (zip g_eval g_weight))))) (\<lambda>y1'.
     ret (H0 @ [H0i], y1')))))))))"

definition stage_loop ::
  "('t, 'r) libs \<Rightarrow> tableau \<Rightarrow> 't SRKAdditive \<Rightarrow> real \<Rightarrow> 't list \<Rightarrow> real \<Rightarrow> 't list \<Rightarrow>
   't list \<Rightarrow> (real \<times> 't list, 't, 'r) run" where
  "stage_loop L tb self t0 y0 dt I_k I_k0 =
     bind (foldM (stage_body L tb self t0 y0 dt I_k I_k0) [0..<STAGES tb] ([], y0))
          (\<lambda>(H0, y1). ret (t0 + dt, y1))"

text \<open>\<^verbatim>\<open>def step(self, t0, y0, dt)\<close>\<close>

definition step ::
  "('t, 'r) libs \<Rightarrow> tableau \<Rightarrow> 't SRKAdditive \<Rightarrow> real \<Rightarrow> 't list \<Rightarrow> real \<Rightarrow>
   (real \<times> 't list, 't, 'r) run" where
  "step L tb self t0 y0 dt =
     (if \<not> dt > 0 then raise AssertionError
      else bind (stochastic_integrals L self t0 y0 dt) (\<lambda>(I_k, I_k0).
           stage_loop L tb self t0 y0 dt I_k I_k0))"

section \<open>The stage loop as the specification writes it\<close>

text \<open>
  The algorithm of section 4.3 of the specification, written as plain recursion with
  no effects and no failure: the update of \<open>H0i\<close> for one \<open>j\<close>, the stage \<open>H0[i]\<close>
  built from the earlier stages, the sequence of the stages, the update of \<open>y1\<close> for
  one \<open>i\<close>, and \<open>y1\<close> after \<open>n\<close> stages. "Per block" combines the blocks that
  are present in every operand.
\<close>

definition spec_stage_update ::
  "('t, 'r) libs \<Rightarrow> tableau \<Rightarrow> 't SRKAdditive \<Rightarrow> real \<Rightarrow> 't list \<Rightarrow> real \<Rightarrow> 't list \<Rightarrow>
   nat \<Rightarrow> 't list list \<Rightarrow> 't list \<Rightarrow> nat \<Rightarrow> 't list" where
  "spec_stage_update L tb self t0 y0 dt I_k0 i H0 H0i j =
     (let f_j = sde_f self (t0 + C0 tb ! j * dt) (H0 ! j);
          g_j = sde_g self (t0 + C1 tb ! j * dt) y0
      in map (\<lambda>(h, fe, ge, w).
                tadd L (tadd L h (tmuls L (smul L (A0 tb ! i ! j) fe) dt))
                       (tdivs L (smul L (B0 tb ! i ! j) (batch_mvp L ge w)) dt))
             (zip H0i (zip f_j (zip g_j I_k0))))"

definition spec_stage ::
  "('t, 'r) libs \<Rightarrow> tableau \<Rightarrow> 't SRKAdditive \<Rightarrow> real \<Rightarrow> 't list \<Rightarrow> real \<Rightarrow> 't list \<Rightarrow>
   't list list \<Rightarrow> nat \<Rightarrow> 't list" where
  "spec_stage L tb self t0 y0 dt I_k0 H0 i =
     foldl (spec_stage_update L tb self t0 y0 dt I_k0 i H0) y0 [0..<i]"

primrec spec_stages ::
  "('t, 'r) libs \<Rightarrow> tableau \<Rightarrow> 't SRKAdditive \<Rightarrow> real \<Rightarrow> 't list \<Rightarrow> real \<Rightarrow> 't list \<Rightarrow>
   nat \<Rightarrow> 't list list" where
  "spec_stages L tb self t0 y0 dt I_k0 0 = []"
| "spec_stages L tb self t0 y0 dt I_k0 (Suc i) =
     spec_stages L tb self t0 y0 dt I_k0 i @
     [spec_stage L tb self t0 y0 dt I_k0 (spec_stages L tb self t0 y0 dt I_k0 i) i]"

definition spec_y1_update ::
  "('t, 'r) libs \<Rightarrow> tableau \<Rightarrow> 't SRKAdditive \<Rightarrow> real \<Rightarrow> 't list \<Rightarrow> real \<Rightarrow> 't list \<Rightarrow>
   't list \<Rightarrow> 't list \<Rightarrow> 't list \<Rightarrow> nat \<Rightarrow> 't list" where
  "spec_y1_update L tb self t0 y0 dt I_k I_k0 H0i y1 i =
     (let f_i = sde_f self (t0 + C0 tb ! i * dt) H0i;
          g_i = sde_g self (t0 + C1 tb ! i * dt) y0;
          g_weight = map (\<lambda>(ik, ik0).
                        tadd L (smul L (beta1 tb ! i) ik) (tdivs L (smul L (beta2 tb ! i) ik0) dt))
                      (zip I_k I_k0)
      in map (\<lambda>(y, fe, ge, gw).
                tadd L (tadd L y (tmuls L (smul L (alpha tb ! i) fe) dt)) (batch_mvp L ge gw))
             (zip y1 (zip f_i (zip g_i g_weight))))"

primrec spec_y1 ::
  "('t, 'r) libs \<Rightarrow> tableau \<Rightarrow> 't SRKAdditive \<Rightarrow> real \<Rightarrow> 't list \<Rightarrow> real \<Rightarrow> 't list \<Rightarrow>
   't list \<Rightarrow> nat \<Rightarrow> 't list" where
  "spec_y1 L tb self t0 y0 dt I_k I_k0 0 = y0"
| "spec_y1 L tb self t0 y0 dt I_k I_k0 (Suc i) =
     spec_y1_update L tb self t0 y0 dt I_k I_k0
       (spec_stage L tb self t0 y0 dt I_k0 (spec_stages L tb self t0 y0 dt I_k0 i) i)
       (spec_y1 L tb self t0 y0 dt I_k I_k0 i) i"

definition spec_compute_step ::
  "('t, 'r) libs \<Rightarrow> tableau \<Rightarrow> 't SRKAdditive \<Rightarrow> real \<Rightarrow> 't list \<Rightarrow> real \<Rightarrow> 't list \<Rightarrow>
   't list \<Rightarrow> real \<times> 't list" where
  "spec_compute_step L tb self t0 y0 dt I_k I_k0 =
     (t0 + dt, spec_y1 L tb self t0 y0 dt I_k I_k0 (STAGES tb))"

text \<open>
  The calls the stage loop makes, in order: for stage \<open>i\<close> the inner loop evaluates
  drift and diffusion once for every \<open>j < i\<close>, then the stage evaluates both once more.
\<close>

definition inner_calls ::
  "tableau \<Rightarrow> 't SRKAdditive \<Rightarrow> real \<Rightarrow> 't list \<Rightarrow> real \<Rightarrow> 't list list \<Rightarrow> nat list \<Rightarrow> 't call list" where
  "inner_calls tb self t0 y0 dt H0 js =
     concat (map (\<lambda>j. [DriftCall (t0 + C0 tb ! j * dt) (H0 ! j),
                        DiffusionCall (t0 + C1 tb ! j * dt) y0]) js)"

primrec stage_calls ::
  "('t, 'r) libs \<Rightarrow> tableau \<Rightarrow> 't SRKAdditive \<Rightarrow> real \<Rightarrow> 't list \<Rightarrow> real \<Rightarrow> 't list \<Rightarrow>
   nat \<Rightarrow> 't call list" where
  "stage_calls L tb self t0 y0 dt I_k0 0 = []"
| "stage_calls L tb self t0 y0 dt I_k0 (Suc i) =
     stage_calls L tb self t0 y0 dt I_k0 i @
     inner_calls tb self t0 y0 dt (spec_stages L tb self t0 y0 dt I_k0 i) [0..<i] @
     [DriftCall (t0 + C0 tb ! i * dt)
        (spec_stage L tb self t0 y0 dt I_k0 (spec_stages L tb self t0 y0 dt I_k0 i) i),
      DiffusionCall (t0 + C1 tb ! i * dt) y0]"










section \<open>Observations on a run\<close>

text \<open>The samples the Gaussian surrogate draws, one for each block of \<open>I_k\<close>, in order.\<close>

fun draws :: "('t, 'r) libs \<Rightarrow> 't list \<Rightarrow> 'r \<Rightarrow> 't list \<times> 'r" where
  "draws L [] r = ([], r)"
| "draws L (x # xs) r =
     (case randn_like L x r of (z, r') \<Rightarrow>
      case draws L xs r' of (zs, r'') \<Rightarrow> (z # zs, r''))"

fun is_drift :: "'t call \<Rightarrow> bool" where
  "is_drift (DriftCall t y) = True"
| "is_drift _ = False"

fun is_diffusion :: "'t call \<Rightarrow> bool" where
  "is_diffusion (DiffusionCall t y) = True"
| "is_diffusion _ = False"



definition diffusion_states :: "'t call list \<Rightarrow> 't list list" where
  "diffusion_states l = concat (map (\<lambda>c. case c of DiffusionCall t y \<Rightarrow> [y] | _ \<Rightarrow> []) l)"

definition drift_states :: "'t call list \<Rightarrow> 't list list" where
  "drift_states l = concat (map (\<lambda>c. case c of DriftCall t y \<Rightarrow> [y] | _ \<Rightarrow> []) l)"

definition only_at :: "'t list \<Rightarrow> 't call list \<Rightarrow> bool" where
  "only_at y0 l \<longleftrightarrow> (\<forall>y\<in>set (diffusion_states l). y = y0)"

text \<open>A call whose answer has fewer than \<open>n\<close> blocks.\<close>

definition returns_fewer_blocks :: "'t SRKAdditive \<Rightarrow> nat \<Rightarrow> 't call \<Rightarrow> bool" where
  "returns_fewer_blocks self n c =
     (case c of DriftCall t y \<Rightarrow> length (sde_f self t y) < n
      | DiffusionCall t y \<Rightarrow> length (sde_g self t y) < n
      | _ \<Rightarrow> False)"

text \<open>
  \<open>keeps P m\<close>: the run \<open>m\<close> keeps the property \<open>P\<close> of the list of calls.
  \<open>indep m\<close>: the result of \<open>m\<close> is the same in every world.
\<close>

definition keeps :: "('t call list \<Rightarrow> bool) \<Rightarrow> ('a, 't, 'r) run \<Rightarrow> bool" where
  "keeps P m \<longleftrightarrow> (\<forall>l r. P l \<longrightarrow> P (fst (snd (m (l, r)))))"

definition indep :: "('a, 't, 'r) run \<Rightarrow> bool" where
  "indep m \<longleftrightarrow> (\<forall>w w'. fst (m w) = fst (m w'))"

section \<open>Concrete instances\<close>

text \<open>
  Scalar tensors: a tensor is a real number, the generator is the list of the samples
  it will return (and returns 0 once the list is used up), the batched product is the
  product, and the trapezoidal helper uses the two end points of the interval.
\<close>

definition real_libs :: "(real, real list) libs" where
  "real_libs =
     \<lparr> tadd = (\<lambda>x y. x + y), tsub = (\<lambda>x y. x - y), smul = (\<lambda>c x. c * x),
       tmuls = (\<lambda>x c. x * c), tdivs = (\<lambda>x c. x / c), to = (\<lambda>x y. x),
       randn_like = (\<lambda>x r. case r of [] \<Rightarrow> (0, []) | z # zs \<Rightarrow> (z, zs)),
       batch_mvp = (\<lambda>ge w. ge * w),
       compute_trapezoidal_approx =
         (\<lambda>b t0 y0 dt sqrt_dt. map (\<lambda>(n, c). dt / 2 * (n - c)) (zip (b (t0 + dt)) (b t0))) \<rparr>"

text \<open>
  A tableau for the examples: the published coefficients of the two-stage scheme SRA1
  of Roessler (2010), which the method names as its tableau. The theorems below hold
  for every well-formed tableau.
\<close>

definition sra1 :: tableau where
  "sra1 = \<lparr> STAGES = 2, C0 = [0, 3 / 4], C1 = [1, 0], A0 = [[], [3 / 4]], B0 = [[], [3 / 2]],
            alpha = [1 / 3, 2 / 3], beta1 = [1, 0], beta2 = [- 1, 1] \<rparr>"

text \<open>
  A solver for \<open>dy = -y dt + dW\<close> on one block, with the Brownian path \<open>W(t) = t\<close>;
  two Brownian sources, of one block and of two blocks, and a solver with zero
  diffusion on either; and a solver whose drift answers with the first block only.
\<close>

definition ex_solver :: "bool \<Rightarrow> real SRKAdditive" where
  "ex_solver trap = SRKAdditive_init (\<lambda>t y. map (\<lambda>x. - x) y) (\<lambda>t y. map (\<lambda>x. 1) y) (\<lambda>t. [t])
      [''trapezoidal_approx'' \<mapsto> trap]"




definition short_solver :: "real SRKAdditive" where
  "short_solver = SRKAdditive_init (\<lambda>t y. take 1 y) (\<lambda>t y. map (\<lambda>x. 1) y) (\<lambda>t. [t, t])
      Map.empty"

text \<open>
  Tensors that carry their numeric type: a pair of a dtype and a value. A binary
  operation promotes to the wider type, \<open>to\<close> takes the type of its second argument.
\<close>

datatype dtype = float32 | float64

definition promote :: "dtype \<Rightarrow> dtype \<Rightarrow> dtype" where
  "promote a b = (if a = float64 \<or> b = float64 then float64 else float32)"

definition tagged_libs :: "(dtype \<times> real, real list) libs" where
  "tagged_libs =
     \<lparr> tadd = (\<lambda>x y. (promote (fst x) (fst y), snd x + snd y)),
       tsub = (\<lambda>x y. (promote (fst x) (fst y), snd x - snd y)),
       smul = (\<lambda>c x. (fst x, c * snd x)),
       tmuls = (\<lambda>x c. (fst x, snd x * c)),
       tdivs = (\<lambda>x c. (fst x, snd x / c)),
       to = (\<lambda>x y. (fst y, snd x)),
       randn_like = (\<lambda>x r. case r of [] \<Rightarrow> ((fst x, 0), []) | z # zs \<Rightarrow> ((fst x, z), zs)),
       batch_mvp = (\<lambda>ge w. (promote (fst ge) (fst w), snd ge * snd w)),
       compute_trapezoidal_approx =
         (\<lambda>b t0 y0 dt sqrt_dt. map (\<lambda>(n, c). (fst n, dt / 2 * (snd n - snd c))) (zip (b (t0 + dt)) (b t0))) \<rparr>"

definition tagged_solver :: "(dtype \<times> real) SRKAdditive" where
  "tagged_solver = SRKAdditive_init (\<lambda>t y. y) (\<lambda>t y. y) (\<lambda>t. [(float64, t), (float64, t)]) Map.empty"



section \<open>Running the model\<close>

subsection \<open>The runs of the basic operations\<close>

lemma ret_run: "ret x w = (Inr x, w)"
  by (simp add: ret_def)
lemma raise_run: "raise e w = (Inl e, w)"
  by (simp add: raise_def)
lemma lift_run: "lift v w = (v, w)"
  by (simp add: lift_def)
lemma bind_run: "bind m k w = (case m w of (Inl e, w') \<Rightarrow> (Inl e, w') | (Inr x, w') \<Rightarrow> k x w')"
  by (simp add: bind_def)
lemma bind_ret: "bind (ret x) k = k x"
  by (simp add: bind_def ret_def)
lemma bind_lift_Inr: "bind (lift (Inr x)) k = k x"
  by (simp add: bind_def lift_def)
lemma bind_lift_Inl: "bind (lift (Inl e)) k = raise e"
  by (simp add: bind_def lift_def raise_def)
lemma bind_raise: "bind (raise e) k = raise e"
  by (simp add: bind_def raise_def)
lemma bind_assoc: "bind (bind m k) h = bind m (\<lambda>x. bind (k x) h)"
  by (auto simp: bind_def fun_eq_iff split: prod.splits sum.splits)

lemma call_f_run: "call_f self t y (l, r) = (Inr (sde_f self t y), (l @ [DriftCall t y], r))"
  by (simp add: call_f_def bind_def emit_def ret_def)
lemma call_g_run: "call_g self t y (l, r) = (Inr (sde_g self t y), (l @ [DiffusionCall t y], r))"
  by (simp add: call_g_def bind_def emit_def ret_def)
lemma call_bm_run: "call_bm self t (l, r) = (Inr (bm self t), (l @ [BmCall t], r))"
  by (simp add: call_bm_def bind_def emit_def ret_def)

lemma idx_Inr: "i < length xs \<Longrightarrow> idx xs i = Inr (xs ! i)"
  by (simp add: idx_def)
lemma bindE_Inr: "bindE (Inr x) k = k x"
  by (simp add: bindE_def)
lemma bindE_Inl: "bindE (Inl e) k = Inl e"
  by (simp add: bindE_def)

lemma mapE_total: "(\<And>x. x \<in> set xs \<Longrightarrow> k x = Inr (h x)) \<Longrightarrow> mapE k xs = Inr (map h xs)"
  by (induction xs) (simp_all add: bindE_def)

lemma foldM_append: "foldM k (xs @ ys) a w = bind (foldM k xs a) (foldM k ys) w"
  by (induction xs arbitrary: a w) (simp_all add: bind_run ret_run split: prod.splits sum.splits)

lemma call_randn_run:
  "call_randn L x (l, r) = (Inr (fst (randn_like L x r)), (l @ [RandnCall x], snd (randn_like L x r)))"
  by (simp add: call_randn_def split: prod.splits)

lemma fst_bind:
  "fst (bind m k w) = (case fst (m w) of Inl e \<Rightarrow> Inl e | Inr x \<Rightarrow> fst (k x (snd (m w))))"
  by (cases "m w") (auto simp: bind_def split: sum.splits)

subsection \<open>The stage loop on a well-formed tableau\<close>

text \<open>
  On a well-formed tableau no lookup fails, and the loop returns the stages and the
  \<open>y1\<close> of the specification's recursion, having made the calls of \<open>stage_calls\<close>.
\<close>

lemma wf_tableauD:
  assumes "wf_tableau tb" "i < STAGES tb"
  shows "i < length (C0 tb)" "i < length (C1 tb)" "i < length (alpha tb)"
    "i < length (beta1 tb)" "i < length (beta2 tb)" "i < length (A0 tb)" "i < length (B0 tb)"
    "i \<le> length (A0 tb ! i)" "i \<le> length (B0 tb ! i)"
  using assms by (auto simp: wf_tableau_def list_all_iff)

lemma inner_body_run:
  assumes "wf_tableau tb" "i < STAGES tb" "j < i" "j < length H0"
  shows "inner_body L tb self t0 y0 dt I_k0 i H0 H0i j (l, r) =
           (Inr (spec_stage_update L tb self t0 y0 dt I_k0 i H0 H0i j),
            (l @ [DriftCall (t0 + C0 tb ! j * dt) (H0 ! j),
                  DiffusionCall (t0 + C1 tb ! j * dt) y0], r))"
proof -
  have j: "j < STAGES tb" using assms by simp
  note a = wf_tableauD[OF assms(1) assms(2)] and b = wf_tableauD[OF assms(1) j]
  have ja: "j < length (A0 tb ! i)" "j < length (B0 tb ! i)" using a assms(3) by auto
  show ?thesis
    unfolding inner_body_def spec_stage_update_def Let_def
    by (simp add: idx_Inr a b ja assms bind_run lift_run call_f_run call_g_run bindE_Inr
        mapE_total[where h="\<lambda>(h, fe, ge, w). tadd L (tadd L h (tmuls L (smul L (A0 tb ! i ! j) fe) dt))
                       (tdivs L (smul L (B0 tb ! i ! j) (batch_mvp L ge w)) dt)"] split_beta)
qed

lemma inner_loop_run:
  assumes "wf_tableau tb" "i < STAGES tb" "\<forall>j\<in>set js. j < i \<and> j < length H0"
  shows "foldM (inner_body L tb self t0 y0 dt I_k0 i H0) js h (l, r) =
           (Inr (foldl (spec_stage_update L tb self t0 y0 dt I_k0 i H0) h js),
            (l @ inner_calls tb self t0 y0 dt H0 js, r))"
  using assms(3)
proof (induction js arbitrary: h l)
  case Nil
  then show ?case by (simp add: ret_run inner_calls_def)
next
  case (Cons j js)
  then show ?case
    by (simp add: bind_run inner_body_run[OF assms(1,2)] inner_calls_def)
qed

lemma stage_body_run:
  assumes "wf_tableau tb" "i < STAGES tb" "length H0 = i"
  shows "stage_body L tb self t0 y0 dt I_k I_k0 (H0, y1) i (l, r) =
           (Inr (H0 @ [spec_stage L tb self t0 y0 dt I_k0 H0 i],
                 spec_y1_update L tb self t0 y0 dt I_k I_k0 (spec_stage L tb self t0 y0 dt I_k0 H0 i) y1 i),
            (l @ inner_calls tb self t0 y0 dt H0 [0..<i] @
               [DriftCall (t0 + C0 tb ! i * dt) (spec_stage L tb self t0 y0 dt I_k0 H0 i),
                DiffusionCall (t0 + C1 tb ! i * dt) y0], r))"
proof -
  note a = wf_tableauD[OF assms(1) assms(2)]
  have inner: "foldM (inner_body L tb self t0 y0 dt I_k0 i H0) [0..<i] y0 (l, r) =
           (Inr (spec_stage L tb self t0 y0 dt I_k0 H0 i),
            (l @ inner_calls tb self t0 y0 dt H0 [0..<i], r))"
    unfolding spec_stage_def
    by (rule inner_loop_run[OF assms(1,2)]) (simp add: assms(3))
  show ?thesis
    unfolding stage_body_def spec_y1_update_def Let_def
    by (simp add: bind_run inner idx_Inr a lift_run call_f_run call_g_run bindE_Inr ret_run
        mapE_total[where h="\<lambda>(ik, ik0). tadd L (smul L (beta1 tb ! i) ik) (tdivs L (smul L (beta2 tb ! i) ik0) dt)"]
        mapE_total[where h="\<lambda>(y, fe, ge, gw). tadd L (tadd L y (tmuls L (smul L (alpha tb ! i) fe) dt)) (batch_mvp L ge gw)"]
        split_beta)
qed

lemma length_spec_stages: "length (spec_stages L tb self t0 y0 dt I_k0 n) = n"
  by (induction n) simp_all

lemma stages_run:
  assumes "wf_tableau tb" "n \<le> STAGES tb"
  shows "foldM (stage_body L tb self t0 y0 dt I_k I_k0) [0..<n] ([], y0) (l, r) =
           (Inr (spec_stages L tb self t0 y0 dt I_k0 n, spec_y1 L tb self t0 y0 dt I_k I_k0 n),
            (l @ stage_calls L tb self t0 y0 dt I_k0 n, r))"
  using assms(2)
proof (induction n)
  case 0
  then show ?case by (simp add: ret_run)
next
  case (Suc n)
  then have n: "n < STAGES tb" and le: "n \<le> STAGES tb" by simp_all
  show ?case
    by (simp add: foldM_append bind_run Suc.IH[OF le]
        stage_body_run[OF assms(1) n length_spec_stages] ret_run)
qed

lemma stage_loop_run:
  assumes "wf_tableau tb"
  shows "stage_loop L tb self t0 y0 dt I_k I_k0 (l, r) =
           (Inr (t0 + dt, spec_y1 L tb self t0 y0 dt I_k I_k0 (STAGES tb)),
            (l @ stage_calls L tb self t0 y0 dt I_k0 (STAGES tb), r))"
  unfolding stage_loop_def
  by (simp add: bind_run stages_run[OF assms order_refl] ret_run)

subsection \<open>The stochastic integrals\<close>

lemma length_draws: "length (fst (draws L xs r)) = length xs"
  by (induction xs arbitrary: r) (simp_all add: split_beta)

lemma gaussian_surrogate_run:
  "gaussian_surrogate L dt sq I_k (l, r) =
     (Inr (map (\<lambda>(d, z). smul L (dt / 2) (tadd L d (tdivs L (tmuls L z sq) (sqrt 3))))
               (zip I_k (fst (draws L I_k r)))),
      (l @ map RandnCall I_k, snd (draws L I_k r)))"
  unfolding gaussian_surrogate_def
  by (induction I_k arbitrary: l r)
     (simp_all add: ret_run bind_run call_randn_run split: prod.splits)

lemma mapE_to:
  "mapE (\<lambda>(n, c). bindE (idx y0 0) (\<lambda>y00. Inr (h n c y00))) zs =
     (if y0 = [] \<and> zs \<noteq> [] then Inl IndexError
      else Inr (map (\<lambda>(n, c). h n c (y0 ! 0)) zs))"
  by (induction zs) (auto simp: bindE_def idx_def split: sum.splits)

lemma brownian_increment_run:
  "brownian_increment L self t0 y0 dt (l, r) =
     ((if y0 = [] \<and> zip (bm self (t0 + dt)) (bm self t0) \<noteq> [] then Inl IndexError
       else Inr (map (\<lambda>(n, c). to L (tsub L n c) (y0 ! 0)) (zip (bm self (t0 + dt)) (bm self t0)))),
      (l @ [BmCall (t0 + dt), BmCall t0], r))"
  unfolding brownian_increment_def
  by (simp add: bind_run call_bm_run lift_run mapE_to del: zip_eq_Nil_iff)


lemma stochastic_integrals_run:
  assumes "y0 \<noteq> []"
  shows "\<exists>I_k I_k0 l' r'. stochastic_integrals L self t0 y0 dt (l, r) = (Inr (I_k, I_k0), (l @ l', r'))
           \<and> filter is_drift l' = [] \<and> filter is_diffusion l' = []"
  using assms
  by (cases "trapezoidal_approx self")
     (simp_all add: stochastic_integrals_def bind_run brownian_increment_run second_integral_def
      ret_run gaussian_surrogate_run)

subsection \<open>Counting and locating the calls\<close>



lemma nth_spec_stages:
  "j < i \<Longrightarrow> spec_stages L tb self t0 y0 dt I_k0 i ! j =
     spec_stage L tb self t0 y0 dt I_k0 (spec_stages L tb self t0 y0 dt I_k0 j) j"
  by (induction i) (auto simp: nth_append length_spec_stages less_Suc_eq)

lemma stage_calls_cases:
  assumes "c \<in> set (stage_calls L tb self t0 y0 dt I_k0 n)"
  shows "\<exists>i<n. c = DriftCall (t0 + C0 tb ! i * dt)
                   (spec_stage L tb self t0 y0 dt I_k0 (spec_stages L tb self t0 y0 dt I_k0 i) i)
              \<or> c = DiffusionCall (t0 + C1 tb ! i * dt) y0"
  using assms
proof (induction n)
  case 0
  then show ?case by simp
next
  case (Suc n)
  then show ?case
    by (auto simp: inner_calls_def nth_spec_stages less_Suc_eq)
qed

subsection \<open>Properties kept by every run\<close>

lemma keeps_ret: "keeps P (ret x)"
  by (simp add: keeps_def ret_def)
lemma keeps_raise: "keeps P (raise e)"
  by (simp add: keeps_def raise_def)
lemma keeps_lift: "keeps P (lift v)"
  by (simp add: keeps_def lift_def)
lemma keeps_bind: "keeps P m \<Longrightarrow> (\<And>x. keeps P (k x)) \<Longrightarrow> keeps P (bind m k)"
  unfolding keeps_def bind_def
  by (auto split: prod.splits sum.splits) (metis fst_conv snd_conv)+
lemma keeps_foldM: "(\<And>a x. keeps P (k a x)) \<Longrightarrow> keeps P (foldM k xs a)"
  by (induction xs arbitrary: a) (simp_all add: keeps_ret keeps_bind)
lemma keeps_mapM: "(\<And>x. keeps P (k x)) \<Longrightarrow> keeps P (mapM k xs)"
  by (induction xs) (simp_all add: keeps_ret keeps_bind)
lemma keeps_emit: "(\<And>l. P l \<Longrightarrow> P (l @ [c])) \<Longrightarrow> keeps P (emit c)"
  by (simp add: keeps_def emit_def)

lemma keeps_call_f: "keeps (only_at y0) (call_f self t y)"
  unfolding call_f_def
  by (intro keeps_bind keeps_emit keeps_ret) (simp add: only_at_def diffusion_states_def)
lemma keeps_call_bm: "keeps (only_at y0) (call_bm self t)"
  unfolding call_bm_def
  by (intro keeps_bind keeps_emit keeps_ret) (simp add: only_at_def diffusion_states_def)
lemma keeps_call_g: "keeps (only_at y0) (call_g self t y0)"
  unfolding call_g_def
  by (intro keeps_bind keeps_emit keeps_ret) (simp add: only_at_def diffusion_states_def)
lemma keeps_call_randn: "keeps (only_at y0) (call_randn L x)"
  by (simp add: keeps_def call_randn_def only_at_def diffusion_states_def split: prod.splits)

lemma keeps_step: "keeps (only_at y0) (step L tb self t0 y0 dt)"
  unfolding step_def stochastic_integrals_def brownian_increment_def second_integral_def
    gaussian_surrogate_def stage_loop_def stage_body_def inner_body_def Let_def
  by (auto intro!: keeps_bind keeps_foldM keeps_mapM keeps_ret keeps_raise keeps_lift
      keeps_call_f keeps_call_g keeps_call_bm keeps_call_randn split: prod.splits)

lemma indep_ret: "indep (ret x)"
  by (simp add: indep_def ret_def)
lemma indep_raise: "indep (raise e)"
  by (simp add: indep_def raise_def)
lemma indep_lift: "indep (lift v)"
  by (simp add: indep_def lift_def)

lemma indep_bind:
  assumes "indep m" and "\<And>x. indep (k x)"
  shows "indep (bind m k)"
proof -
  have "fst (bind m k w) = fst (bind m k w')" for w w'
  proof -
    have eq: "fst (m w) = fst (m w')" using assms(1) unfolding indep_def by blast
    have "fst (k x (snd (m w))) = fst (k x (snd (m w')))" for x
      using assms(2)[of x] unfolding indep_def by blast
    then show ?thesis by (simp add: fst_bind eq split: sum.splits)
  qed
  then show ?thesis unfolding indep_def by blast
qed

lemma indep_foldM: "(\<And>a x. indep (k a x)) \<Longrightarrow> indep (foldM k xs a)"
  by (induction xs arbitrary: a) (simp_all add: indep_ret indep_bind)
lemma indep_emit: "indep (emit c)"
  by (simp add: indep_def emit_def split_beta)
lemma indep_call_f: "indep (call_f self t y)"
  unfolding call_f_def by (intro indep_bind indep_emit indep_ret)
lemma indep_call_g: "indep (call_g self t y)"
  unfolding call_g_def by (intro indep_bind indep_emit indep_ret)
lemma indep_call_bm: "indep (call_bm self t)"
  unfolding call_bm_def by (intro indep_bind indep_emit indep_ret)

lemma indep_step:
  assumes "trapezoidal_approx self"
  shows "indep (step L tb self t0 y0 dt)"
  unfolding step_def stochastic_integrals_def brownian_increment_def second_integral_def
    stage_loop_def stage_body_def inner_body_def Let_def
  using assms
  by (auto intro!: indep_bind indep_foldM indep_ret indep_raise indep_lift
      indep_call_f indep_call_g indep_call_bm split: prod.splits)

subsection \<open>Zero diffusion\<close>















subsection \<open>Block counts\<close>

lemma length_y1_update:
  "length (spec_y1_update L tb self t0 y0 dt I_k I_k0 H0i y1 i) \<le> length y1"
  "length (spec_y1_update L tb self t0 y0 dt I_k I_k0 H0i y1 i) \<le> length (sde_f self (t0 + C0 tb ! i * dt) H0i)"
  "length (spec_y1_update L tb self t0 y0 dt I_k I_k0 H0i y1 i) \<le> length (sde_g self (t0 + C1 tb ! i * dt) y0)"
  by (simp_all add: spec_y1_update_def Let_def min.coboundedI1 min.coboundedI2)

lemma length_spec_y1_mono:
  "length (spec_y1 L tb self t0 y0 dt I_k I_k0 (Suc n)) \<le> length (spec_y1 L tb self t0 y0 dt I_k I_k0 n)"
  by (simp add: length_y1_update)

lemma length_spec_y1_le:
  "m \<le> n \<Longrightarrow> length (spec_y1 L tb self t0 y0 dt I_k I_k0 n) \<le> length (spec_y1 L tb self t0 y0 dt I_k I_k0 m)"
proof (induction n)
  case 0
  then show ?case by simp
next
  case (Suc n)
  show ?case
  proof (cases "m = Suc n")
    case True
    then show ?thesis by simp
  next
    case False
    then have "m \<le> n" using Suc.prems by simp
    from order_trans[OF length_spec_y1_mono Suc.IH[OF this]] show ?thesis .
  qed
qed

lemma length_spec_y1_stage:
  assumes "i < n"
  shows "length (spec_y1 L tb self t0 y0 dt I_k I_k0 n) \<le>
           length (sde_f self (t0 + C0 tb ! i * dt)
             (spec_stage L tb self t0 y0 dt I_k0 (spec_stages L tb self t0 y0 dt I_k0 i) i))"
    and "length (spec_y1 L tb self t0 y0 dt I_k I_k0 n) \<le>
           length (sde_g self (t0 + C1 tb ! i * dt) y0)"
proof -
  have le: "length (spec_y1 L tb self t0 y0 dt I_k I_k0 n) \<le>
            length (spec_y1 L tb self t0 y0 dt I_k I_k0 (Suc i))"
    using assms by (intro length_spec_y1_le) simp
  show "length (spec_y1 L tb self t0 y0 dt I_k I_k0 n) \<le>
           length (sde_f self (t0 + C0 tb ! i * dt)
             (spec_stage L tb self t0 y0 dt I_k0 (spec_stages L tb self t0 y0 dt I_k0 i) i))"
    by (rule order_trans[OF le]) (simp add: length_y1_update)
  show "length (spec_y1 L tb self t0 y0 dt I_k I_k0 n) \<le>
           length (sde_g self (t0 + C1 tb ! i * dt) y0)"
    by (rule order_trans[OF le]) (simp add: length_y1_update)
qed

subsection \<open>The examples\<close>

lemmas run_defs =
  step_def stochastic_integrals_def brownian_increment_def second_integral_def
  gaussian_surrogate_def stage_loop_def stage_body_def inner_body_def
  bind_def ret_def lift_def raise_def emit_def call_f_def call_g_def call_bm_def
  call_randn_def idx_def bindE_def SRKAdditive_init_def real_libs_def sra1_def upt_rec

lemma wf_sra1: "wf_tableau sra1"
  by (simp add: wf_tableau_def sra1_def upt_rec)

lemma ex_trap_integrals:
  "stochastic_integrals real_libs (ex_solver True) 0 [1] 1 ([], []) =
     (Inr ([1], [1 / 2]), ([BmCall 1, BmCall 0], []))"
  by (simp add: run_defs ex_solver_def)

lemma ex_trap_run:
  "step real_libs sra1 (ex_solver True) 0 [1] 1 ([], []) =
     (Inr (1, [1]),
      ([BmCall 1, BmCall 0, DriftCall 0 [1], DiffusionCall 1 [1], DriftCall 0 [1],
        DiffusionCall 1 [1], DriftCall (3 / 4) [1], DiffusionCall 0 [1]], []))"
  by (simp add: run_defs ex_solver_def)

lemma ex_gauss_run_zero:
  "fst (step real_libs sra1 (ex_solver False) 0 [1] 1 ([], [])) = Inr (1, [1])"
  by (simp add: run_defs ex_solver_def)

lemma ex_gauss_run_sqrt3:
  "fst (step real_libs sra1 (ex_solver False) 0 [1] 1 ([], [sqrt 3])) = Inr (1, [1 / 2])"
  by (simp add: run_defs ex_solver_def)








lemma short_run:
  "step real_libs sra1 short_solver 0 [1, 2] 1 ([], []) =
     (Inr (1, [4]),
      ([BmCall 1, BmCall 0, DriftCall 0 [1, 2], DiffusionCall 1 [1, 2], DriftCall 0 [1, 2],
        DiffusionCall 1 [1, 2], DriftCall (3 / 4) [5 / 2], DiffusionCall 0 [1, 2]], []))"
  by (simp add: run_defs short_solver_def)

section \<open>The claims\<close>

subsection \<open>The stage loop\<close>

text \<open>
  Claim C1. For a step size \<open>dt > 0\<close> and the stochastic integrals \<open>I_k\<close> and \<open>I_k0\<close>
  that the method computed, \<open>step\<close> returns \<open>t0 + dt\<close> together with the \<open>y1\<close> of the
  stage loop of the specification: every stage \<open>H0[i]\<close> starts from \<open>y0\<close> and adds, for
  \<open>j < i\<close>, \<open>A0[i][j] * f(t0 + C0[j] * dt, H0[j]) * dt\<close> and
  \<open>B0[i][j] * (g(t0 + C1[j] * dt, y0) applied to I_k0) / dt\<close> per block, and \<open>y1\<close>
  accumulates over the stages \<open>alpha[i] * f(t0 + C0[i] * dt, H0[i]) * dt\<close> and
  \<open>g(t0 + C1[i] * dt, y0)\<close> applied to \<open>beta1[i] * I_k + beta2[i] * I_k0 / dt\<close>.
  The tableau is well formed, as section 4.1 of the specification describes it.
\<close>

theorem step_computes_tableau_loop:
  assumes "dt > 0" and "wf_tableau tb"
    and "stochastic_integrals L self t0 y0 dt w = (Inr (I_k, I_k0), w')"
  shows "fst (step L tb self t0 y0 dt w) = Inr (spec_compute_step L tb self t0 y0 dt I_k I_k0)"
proof -
  obtain l r where w': "w' = (l, r)"
    by (cases w')
  show ?thesis
    using assms(1)
    by (simp add: step_def bind_run assms(3) w' stage_loop_run[OF assms(2)]
        spec_compute_step_def)
qed

theorem step_computes_tableau_loop_witness:
  "(0 :: real) < 1 \<and> wf_tableau sra1 \<and>
   stochastic_integrals real_libs (ex_solver True) 0 [1] 1 ([], []) =
     (Inr ([1], [1 / 2]), ([BmCall 1, BmCall 0], [])) \<and>
   fst (step real_libs sra1 (ex_solver True) 0 [1] 1 ([], [])) =
     Inr (spec_compute_step real_libs sra1 (ex_solver True) 0 [1] 1 [1] [1 / 2]) \<and>
   spec_compute_step real_libs sra1 (ex_solver True) 0 [1] 1 [1] [1 / 2] = (1, [1])"
proof -
  have pos: "(0 :: real) < 1"
    by simp
  have eq: "fst (step real_libs sra1 (ex_solver True) 0 [1] 1 ([], [])) =
     Inr (spec_compute_step real_libs sra1 (ex_solver True) 0 [1] 1 [1] [1 / 2])"
    by (rule step_computes_tableau_loop[OF pos wf_sra1 ex_trap_integrals])
  have val: "spec_compute_step real_libs sra1 (ex_solver True) 0 [1] 1 [1] [1 / 2] = (1, [1])"
    using eq by (simp add: ex_trap_run)
  show ?thesis
    using pos wf_sra1 ex_trap_integrals eq val by simp
qed




text \<open>
  Claim C4. Within one step, every evaluation of the diffusion, in the inner loop
  and in the combination of the stages alike, receives the initial state \<open>y0\<close>, never
  a stage value. This holds on every run, also on one that ends in an error.
\<close>

theorem diffusion_always_at_y0:
  "\<forall>y \<in> set (diffusion_states (fst (snd (step L tb self t0 y0 dt ([], r))))). y = y0"
proof -
  have "only_at y0 []"
    by (simp add: only_at_def diffusion_states_def)
  then have "only_at y0 (fst (snd (step L tb self t0 y0 dt ([], r))))"
    using keeps_step[of y0 L tb self t0 dt] unfolding keeps_def by blast
  then show ?thesis
    by (simp add: only_at_def)
qed

theorem diffusion_always_at_y0_witness:
  "diffusion_states (fst (snd (step real_libs sra1 short_solver 0 [1, 2] 1 ([], [])))) =
     [[1, 2], [1, 2], [1, 2]] \<and>
   drift_states (fst (snd (step real_libs sra1 short_solver 0 [1, 2] 1 ([], [])))) =
     [[1, 2], [1, 2], [5 / 2]] \<and>
   set (diffusion_states (fst (snd (step real_libs sra1 short_solver 0 [1, 2] 1 ([], []))))) \<subseteq>
     {[1, 2]}"
proof -
  have "diffusion_states (fst (snd (step real_libs sra1 short_solver 0 [1, 2] 1 ([], [])))) =
     [[1, 2], [1, 2], [1, 2]]"
    unfolding short_run by (simp add: diffusion_states_def)
  moreover have "drift_states (fst (snd (step real_libs sra1 short_solver 0 [1, 2] 1 ([], [])))) =
     [[1, 2], [1, 2], [5 / 2]]"
    unfolding short_run by (simp add: drift_states_def)
  ultimately show ?thesis
    using diffusion_always_at_y0[of real_libs sra1 short_solver 0 "[1, 2]" 1 "[]"] by blast
qed

subsection \<open>The step size\<close>

text \<open>
  Claim C3. For every \<open>t0\<close> and \<open>y0\<close>, a call of \<open>step\<close> with \<open>dt \<le> 0\<close> fails with the
  error of the assertion at the head of the method (the InvalidStepSize of the
  specification). The world is unchanged: no call to the Brownian source, the
  generator, the drift or the diffusion has been made, and the outcome is the same
  for every numeric library, so no tensor operation has a part in it. The error is the
  result of \<open>step\<close>: nothing catches it.
\<close>

theorem step_rejects_nonpositive_dt:
  "dt \<le> 0 \<Longrightarrow> step L tb self t0 y0 dt w = (Inl AssertionError, w)"
  by (simp add: step_def raise_def)

theorem step_rejects_nonpositive_dt_witness:
  "(0 :: real) \<le> 0 \<and> (- 1 :: real) \<le> 0 \<and>
   step real_libs sra1 (ex_solver True) 0 [1] 0 ([], []) = (Inl AssertionError, ([], [])) \<and>
   step real_libs sra1 (ex_solver False) 0 [1] (- 1) ([], [2]) = (Inl AssertionError, ([], [2]))"
proof -
  have z: "(0 :: real) \<le> 0" and m: "(- 1 :: real) \<le> 0"
    by simp_all
  show ?thesis
    using step_rejects_nonpositive_dt[OF z, of real_libs sra1 "ex_solver True" 0 "[1]" "([], [])"]
      step_rejects_nonpositive_dt[OF m, of real_libs sra1 "ex_solver False" 0 "[1]" "([], [2])"]
    by simp
qed

subsection \<open>The stochastic integrals\<close>

text \<open>
  Claim C5. With \<open>trapezoidal_approx\<close> disabled, the second-order stochastic integral
  of every block is \<open>I_k0[b] = (dt / 2) * (I_k[b] + Z[b] * sqrt (dt / 3))\<close>, where
  \<open>Z[b]\<close> is the sample that \<open>randn_like\<close> draws for \<open>I_k[b]\<close> (so it has the shape of
  \<open>I_k[b]\<close>), one fresh draw for each block. The arithmetic is exact: dividing a scaled
  tensor by \<open>sqrt 3\<close> is scaling it by the quotient. That the samples are independent
  and standard normal is a property of the generator, which is a parameter here.
\<close>

theorem gaussian_surrogate_formula:
  assumes "\<not> trapezoidal_approx self"
    and "\<forall>z a. tdivs L (tmuls L z a) (sqrt 3) = tmuls L z (a / sqrt 3)"
  shows "second_integral L self t0 y0 dt I_k (l, r) =
           (Inr (map (\<lambda>(ik, z). smul L (dt / 2) (tadd L ik (tmuls L z (sqrt (dt / 3)))))
                     (zip I_k (fst (draws L I_k r)))),
            (l @ map RandnCall I_k, snd (draws L I_k r))) \<and>
         length (fst (draws L I_k r)) = length I_k"
  using assms
  by (simp add: second_integral_def gaussian_surrogate_run real_sqrt_divide length_draws)

theorem gaussian_surrogate_formula_witness:
  "\<not> trapezoidal_approx (ex_solver False) \<and>
   (\<forall>z a. tdivs real_libs (tmuls real_libs z a) (sqrt 3) = tmuls real_libs z (a / sqrt 3)) \<and>
   second_integral real_libs (ex_solver False) 0 [1] 3 [3, 6] ([], [2, 4]) =
     (Inr [15 / 2, 15], ([RandnCall 3, RandnCall 6], []))"
proof -
  have flag: "\<not> trapezoidal_approx (ex_solver False)"
    by (simp add: ex_solver_def SRKAdditive_init_def)
  have law: "\<forall>z a. tdivs real_libs (tmuls real_libs z a) (sqrt 3) =
      tmuls real_libs z (a / sqrt 3)"
    by (simp add: real_libs_def)
  show ?thesis
    using gaussian_surrogate_formula[OF flag law, of 0 "[1]" 3 "[3, 6]" "[]" "[2, 4]"] flag law
    by (simp add: real_libs_def)
qed

text \<open>
  Claim C6, as the code has it. For every block index \<open>b\<close>, the Brownian increment
  \<open>I_k[b]\<close> is the difference of the responses of the Brownian source at \<open>t0 + dt\<close> and
  at \<open>t0\<close>, converted to the numeric type (dtype and device) of the first state block
  \<open>y0[0]\<close>, whatever the numeric type of \<open>y0[b]\<close> is.
\<close>

theorem increment_cast_to_first_block:
  assumes "y0 \<noteq> []"
  shows "\<exists>I_k. fst (brownian_increment L self t0 y0 dt w) = Inr I_k \<and>
           length I_k = min (length (bm self (t0 + dt))) (length (bm self t0)) \<and>
           (\<forall>b < length I_k.
              I_k ! b = to L (tsub L (bm self (t0 + dt) ! b) (bm self t0 ! b)) (y0 ! 0))"
proof -
  obtain l r where w: "w = (l, r)"
    by (cases w)
  show ?thesis
    using assms by (simp add: w brownian_increment_run)
qed

theorem increment_cast_to_first_block_witness:
  "[(float32, 1), (float64, 2 :: real)] \<noteq> [] \<and>
   (\<exists>I_k. fst (brownian_increment tagged_libs tagged_solver 0 [(float32, 1), (float64, 2)] 1
                 ([], [])) = Inr I_k \<and>
      length I_k = 2 \<and>
      (\<forall>b < length I_k. I_k ! b = (float32, 1)))"
proof -
  have ne: "[(float32, 1), (float64, 2 :: real)] \<noteq> []"
    by simp
  from increment_cast_to_first_block[OF ne, of tagged_libs tagged_solver 0 1 "([], [])"]
  obtain I_k where
    res: "fst (brownian_increment tagged_libs tagged_solver 0 [(float32, 1), (float64, 2)] 1
                 ([], [])) = Inr I_k"
    and len: "length I_k = min (length (bm tagged_solver (0 + 1))) (length (bm tagged_solver 0))"
    and blocks: "\<forall>b < length I_k.
        I_k ! b = to tagged_libs (tsub tagged_libs (bm tagged_solver (0 + 1) ! b)
                    (bm tagged_solver 0 ! b)) ([(float32, 1), (float64, 2)] ! 0)"
    by blast
  have two: "length I_k = 2"
    using len by (simp add: tagged_solver_def SRKAdditive_init_def)
  have "I_k ! b = (float32, 1)" if "b < length I_k" for b
  proof -
    have "b = 0 \<or> b = 1"
      using that two by auto
    then show ?thesis
      using blocks that
      by (auto simp: tagged_libs_def tagged_solver_def SRKAdditive_init_def promote_def)
  qed
  then show ?thesis
    using ne res two by blast
qed

text \<open>
  A state of a \<open>float32\<close> block and a \<open>float64\<close> block: the increment of the second
  block comes out as \<open>float32\<close>, the type of \<open>y0[0]\<close>, where the conversion to the type
  of \<open>y0[1]\<close> would give \<open>float64\<close>.
\<close>

theorem increment_cast_counterexample:
  "fst (brownian_increment tagged_libs tagged_solver 0 [(float32, 1), (float64, 2)] 1 ([], [])) =
     Inr [(float32, 1), (float32, 1)] \<and>
   fst ([(float32, 1), (float64, 2 :: real)] ! 1) = float64 \<and>
   to tagged_libs (tsub tagged_libs (bm tagged_solver (0 + 1) ! 1) (bm tagged_solver 0 ! 1))
      ([(float32, 1), (float64, 2)] ! 1) = (float64, 1)"
  by (simp add: brownian_increment_run tagged_libs_def tagged_solver_def SRKAdditive_init_def
      promote_def)

subsection \<open>Zero diffusion and determinism\<close>




text \<open>
  Claim C8. In trapezoidal mode \<open>step\<close> is deterministic given its inputs and the
  responses of the Brownian source: two calls with the same \<open>t0\<close>, \<open>y0\<close>, \<open>dt\<close> and the
  same Brownian source return the same result, whatever the state of the generator and
  whatever was called before. In the Gaussian-surrogate mode this fails: two states of
  the generator give two different results.
\<close>

theorem trapezoidal_mode_deterministic:
  "(trapezoidal_approx self \<longrightarrow>
      fst (step L tb self t0 y0 dt (l, r)) = fst (step L tb self t0 y0 dt (l', r'))) \<and>
   (\<exists>r r'. fst (step real_libs sra1 (ex_solver False) 0 [1] 1 ([], r)) \<noteq>
            fst (step real_libs sra1 (ex_solver False) 0 [1] 1 ([], r')))"
proof
  show "trapezoidal_approx self \<longrightarrow>
      fst (step L tb self t0 y0 dt (l, r)) = fst (step L tb self t0 y0 dt (l', r'))"
    using indep_step[of self L tb t0 y0 dt] unfolding indep_def by blast
  have "fst (step real_libs sra1 (ex_solver False) 0 [1] 1 ([], [])) \<noteq>
        fst (step real_libs sra1 (ex_solver False) 0 [1] 1 ([], [sqrt 3]))"
    by (simp add: ex_gauss_run_zero ex_gauss_run_sqrt3)
  then show "\<exists>r r'. fst (step real_libs sra1 (ex_solver False) 0 [1] 1 ([], r)) \<noteq>
            fst (step real_libs sra1 (ex_solver False) 0 [1] 1 ([], r'))"
    by blast
qed

theorem trapezoidal_mode_deterministic_witness:
  "trapezoidal_approx (ex_solver True) \<and>
   fst (step real_libs sra1 (ex_solver True) 0 [1] 1 ([], [])) =
   fst (step real_libs sra1 (ex_solver True) 0 [1] 1 ([BmCall 5], [7, 8])) \<and>
   fst (step real_libs sra1 (ex_solver True) 0 [1] 1 ([], [])) = Inr (1, [1])"
proof -
  have flag: "trapezoidal_approx (ex_solver True)"
    by (simp add: ex_solver_def SRKAdditive_init_def)
  show ?thesis
    using trapezoidal_mode_deterministic[of "ex_solver True" real_libs sra1 0 "[1]" 1
        "[]" "[]" "[BmCall 5]" "[7, 8]"] flag
    by (simp add: ex_trap_run)
qed

subsection \<open>The declared order\<close>

text \<open>
  Claim C9. The property \<open>strong_order\<close> is 1.5 for every solver object, whatever the
  options it was built from, the option \<open>trapezoidal_approx\<close> among them.
\<close>

theorem strong_order_const:
  "strong_order (self :: 't SRKAdditive) = 3 / 2 \<and>
   strong_order (SRKAdditive_init fd gd b opts :: 't SRKAdditive) = 3 / 2"
  by (simp add: strong_order_def)

theorem strong_order_const_witness:
  "strong_order (ex_solver True) = 3 / 2 \<and> strong_order (ex_solver False) = 3 / 2 \<and>
   trapezoidal_approx (ex_solver True) \<and> \<not> trapezoidal_approx (ex_solver False)"
  using strong_order_const[of "ex_solver True"] strong_order_const[of "ex_solver False"]
  by (simp add: ex_solver_def SRKAdditive_init_def)

subsection \<open>Fewer blocks than the state\<close>

text \<open>
  Claim C10. If an evaluation of the drift or of the diffusion made during the step
  returns a tuple with fewer blocks than the state \<open>y0\<close>, then \<open>step\<close> raises no
  error: the zip over the blocks ends with the shortest tuple, and \<open>step\<close> returns
  \<open>t0 + dt\<close> and a \<open>y1\<close> with fewer blocks than \<open>y0\<close>.
\<close>

theorem fewer_blocks_truncate:
  assumes "dt > 0" and "wf_tableau tb"
    and "\<exists>c \<in> set (fst (snd (step L tb self t0 y0 dt ([], r)))).
           returns_fewer_blocks self (length y0) c"
  shows "\<exists>y1. fst (step L tb self t0 y0 dt ([], r)) = Inr (t0 + dt, y1) \<and>
           length y1 < length y0"
proof -
  from assms(3) obtain c where
    c: "c \<in> set (fst (snd (step L tb self t0 y0 dt ([], r))))"
      "returns_fewer_blocks self (length y0) c"
    by blast
  have y0: "y0 \<noteq> []"
    using c(2) by (auto simp: returns_fewer_blocks_def split: call.splits)
  obtain I_k I_k0 l' r' where
    si: "stochastic_integrals L self t0 y0 dt ([], r) = (Inr (I_k, I_k0), (l', r'))"
    and l': "filter is_drift l' = []" "filter is_diffusion l' = []"
    using stochastic_integrals_run[OF y0, of L self t0 dt "[]" r] by auto
  have run: "step L tb self t0 y0 dt ([], r) =
      (Inr (t0 + dt, spec_y1 L tb self t0 y0 dt I_k I_k0 (STAGES tb)),
       (l' @ stage_calls L tb self t0 y0 dt I_k0 (STAGES tb), r'))"
    using assms(1) by (simp add: step_def bind_run si stage_loop_run[OF assms(2)])
  have "c \<notin> set l'"
    using c(2) l' by (auto simp: returns_fewer_blocks_def filter_empty_conv split: call.splits)
  then have "c \<in> set (stage_calls L tb self t0 y0 dt I_k0 (STAGES tb))"
    using c(1) by (simp add: run)
  then obtain i where i: "i < STAGES tb"
    "c = DriftCall (t0 + C0 tb ! i * dt)
           (spec_stage L tb self t0 y0 dt I_k0 (spec_stages L tb self t0 y0 dt I_k0 i) i)
     \<or> c = DiffusionCall (t0 + C1 tb ! i * dt) y0"
    using stage_calls_cases by blast
  have "length (spec_y1 L tb self t0 y0 dt I_k I_k0 (STAGES tb)) < length y0"
    using i(2) c(2) length_spec_y1_stage[OF i(1), of L tb self t0 y0 dt I_k I_k0]
    by (auto simp: returns_fewer_blocks_def)
  then show ?thesis
    by (simp add: run)
qed

theorem fewer_blocks_truncate_witness:
  "(0 :: real) < 1 \<and> wf_tableau sra1 \<and>
   (\<exists>c \<in> set (fst (snd (step real_libs sra1 short_solver 0 [1, 2] 1 ([], [])))).
      returns_fewer_blocks short_solver (length [1, 2 :: real]) c) \<and>
   (\<exists>y1. fst (step real_libs sra1 short_solver 0 [1, 2] 1 ([], [])) = Inr (0 + 1, y1) \<and>
      length y1 < length [1, 2 :: real]) \<and>
   fst (step real_libs sra1 short_solver 0 [1, 2] 1 ([], [])) = Inr (1, [4])"
proof -
  have pos: "(0 :: real) < 1"
    by simp
  have short: "\<exists>c \<in> set (fst (snd (step real_libs sra1 short_solver 0 [1, 2] 1 ([], [])))).
      returns_fewer_blocks short_solver (length [1, 2 :: real]) c"
    unfolding short_run
    by (simp add: returns_fewer_blocks_def short_solver_def SRKAdditive_init_def)
  have val: "fst (step real_libs sra1 short_solver 0 [1, 2] 1 ([], [])) = Inr (1, [4])"
    by (simp add: short_run)
  show ?thesis
    using fewer_blocks_truncate[OF pos wf_sra1 short] pos wf_sra1 short val by blast
qed


end
